theory Spec2Isabelle
  imports Main
begin

section \<open>pshs: the server bootstrap of \<^verbatim>\<open>src/main.cxx\<close>\<close>

text \<open>
  The whole program is the function \<^verbatim>\<open>main\<close>. It is modelled as a function from the
  argument vector and the results of the library calls it makes (the record \<open>env\<close> below)
  to the list of observable actions it performs, in order, and the way the process ends.
  The C library functions \<^verbatim>\<open>getopt_long\<close> and \<^verbatim>\<open>strtol\<close> decide what the option loop
  does, so their documented behaviour (getopt(3) of the GNU C library, strtol(3)) is
  written out; every other library call is an action whose result comes from the
  environment.
\<close>

subsection \<open>\<^verbatim>\<open>strtol(nptr, &endptr, 0)\<close>\<close>

definition isspace :: "char \<Rightarrow> bool" where
  "isspace c = (c = CHR '' '' \<or> c = CHR 0x09 \<or> c = CHR 0x0A \<or> c = CHR 0x0B
                \<or> c = CHR 0x0C \<or> c = CHR 0x0D)"

text \<open>The value of a character as a digit: \<open>0\<close>-\<open>9\<close>, then the letters for 10 to 35.\<close>

definition digit_val :: "char \<Rightarrow> nat option" where
  "digit_val c =
     (let n = (of_char c :: nat) in
      if 48 \<le> n \<and> n \<le> 57 then Some (n - 48)
      else if 97 \<le> n \<and> n \<le> 122 then Some (n - 87)
      else if 65 \<le> n \<and> n \<le> 90 then Some (n - 55)
      else None)"

text \<open>The digit loop: the longest run of digits of the base, and where it stops.\<close>

fun parse_digits :: "nat \<Rightarrow> nat \<Rightarrow> string \<Rightarrow> nat \<times> string" where
  "parse_digits base acc [] = (acc, [])"
| "parse_digits base acc (c # cs) =
     (case digit_val c of
        None \<Rightarrow> (acc, c # cs)
      | Some d \<Rightarrow> if d < base then parse_digits base (acc * base + d) cs else (acc, c # cs))"

text \<open>\<^verbatim>\<open>long\<close> has 64 bits (LP64); a value out of its range is clamped, as strtol does.\<close>

definition LONG_MAX :: int where
  "LONG_MAX = 2 ^ 63 - 1"

definition LONG_MIN :: int where
  "LONG_MIN = - (2 ^ 63)"

definition clamp_long :: "int \<Rightarrow> int" where
  "clamp_long v = (if v > LONG_MAX then LONG_MAX else if v < LONG_MIN then LONG_MIN else v)"

text \<open>
  Base 0: leading white space, an optional sign, then \<open>0x\<close>/\<open>0X\<close> for base 16, a leading
  \<open>0\<close> for base 8, base 10 otherwise. The result is the value and the text at \<^verbatim>\<open>endptr\<close>.
  With no digit at all the value is 0 and \<^verbatim>\<open>endptr\<close> is \<^verbatim>\<open>nptr\<close>; after a bare \<open>0x\<close> the
  \<open>0\<close> is the number and \<^verbatim>\<open>endptr\<close> is at the \<open>x\<close>.
\<close>

definition strtol :: "string \<Rightarrow> int \<times> string" where
  "strtol nptr =
     (let s0 = dropWhile isspace nptr;
          neg = (case s0 of c # _ \<Rightarrow> c = CHR ''-'' | [] \<Rightarrow> False);
          s1 = (case s0 of c # t \<Rightarrow> if c = CHR ''-'' \<or> c = CHR ''+'' then t else s0 | [] \<Rightarrow> s0);
          hex = (case s1 of c # x # _ \<Rightarrow> c = CHR ''0'' \<and> (x = CHR ''x'' \<or> x = CHR ''X'')
                          | _ \<Rightarrow> False);
          base = (if hex then 16 else
                    (case s1 of c # _ \<Rightarrow> if c = CHR ''0'' then 8 else 10 | [] \<Rightarrow> 10));
          s2 = (if hex then drop 2 s1 else s1);
          (v, rest) = parse_digits base 0 s2
      in if length rest = length s2
         then (if hex then (0, tl s1) else (0, nptr))
         else (clamp_long (if neg then - int v else int v), rest))"

subsection \<open>\<^verbatim>\<open>getopt_long\<close>\<close>

datatype has_arg = no_argument | required_argument

record struct_option =
  name :: string
  has_arg :: has_arg
  val :: char

text \<open>
  The scanner's state between two calls: the elements of \<^verbatim>\<open>argv\<close> not yet looked at, the
  rest of the cluster of short options being read (\<^verbatim>\<open>nextchar\<close>), and the non-option
  elements passed over so far. GNU getopt moves those behind the options, so when the
  scan ends they are \<^verbatim>\<open>argv[optind]\<close> to \<^verbatim>\<open>argv[argc - 1]\<close>, in their original order.
\<close>

record getopt_state =
  pending :: "string list"
  nextchar :: string
  skipped :: "string list"

text \<open>What one call returns: an option character with \<^verbatim>\<open>optarg\<close>, or -1.\<close>

datatype getopt_ret = Opt char "string option" | EndOfOptions

text \<open>
  A character of the option string: absent (\<open>None\<close>), or present and followed by a colon
  or not. A colon or semicolon is never an option character.
\<close>

fun lookup_short :: "string \<Rightarrow> char \<Rightarrow> has_arg option" where
  "lookup_short [] c = None"
| "lookup_short (x # xs) c =
     (if x = c \<and> c \<noteq> CHR '':'' \<and> c \<noteq> CHR '';''
      then Some (case xs of y # _ \<Rightarrow> if y = CHR '':'' then required_argument else no_argument
                          | [] \<Rightarrow> no_argument)
      else lookup_short xs c)"

text \<open>
  The next character of a cluster. An unknown character, and a missing argument, give
  \<open>?\<close>. The argument of an option is the rest of the cluster when there is one, the next
  element of \<^verbatim>\<open>argv\<close> otherwise.
\<close>

definition short_option :: "string \<Rightarrow> getopt_state \<Rightarrow> getopt_ret \<times> getopt_state" where
  "short_option optstring st =
     (case nextchar st of
        [] \<Rightarrow> (EndOfOptions, st)
      | c # cs \<Rightarrow>
          (case lookup_short optstring c of
             None \<Rightarrow> (Opt (CHR ''?'') None, st\<lparr>nextchar := cs\<rparr>)
           | Some no_argument \<Rightarrow> (Opt c None, st\<lparr>nextchar := cs\<rparr>)
           | Some required_argument \<Rightarrow>
               (if cs \<noteq> [] then (Opt c (Some cs), st\<lparr>nextchar := []\<rparr>)
                else (case pending st of
                        [] \<Rightarrow> (Opt (CHR ''?'') None, st\<lparr>nextchar := []\<rparr>)
                      | a # as \<Rightarrow> (Opt c (Some a), st\<lparr>nextchar := [], pending := as\<rparr>)))))"

text \<open>
  A long option \<open>--name\<close> or \<open>--name=value\<close>: an exact match of the name wins, otherwise
  the name may abbreviate exactly one entry of the table (several entries only when
  they agree in \<open>has_arg\<close> and \<open>val\<close>). No entry, an ambiguous abbreviation, a value for an
  option that takes none and a missing argument all give \<open>?\<close>.
\<close>

definition find_long :: "struct_option list \<Rightarrow> string \<Rightarrow> struct_option option" where
  "find_long longopts nm =
     (case filter (\<lambda>p. name p = nm) longopts of
        p # _ \<Rightarrow> Some p
      | [] \<Rightarrow>
          (case filter (\<lambda>p. take (length nm) (name p) = nm) longopts of
             [] \<Rightarrow> None
           | p # ps \<Rightarrow>
               if list_all (\<lambda>q. has_arg q = has_arg p \<and> val q = val p) ps then Some p
               else None))"

definition long_option :: "struct_option list \<Rightarrow> string \<Rightarrow> getopt_state \<Rightarrow> getopt_ret \<times> getopt_state" where
  "long_option longopts body st =
     (let nm = takeWhile (\<lambda>c. c \<noteq> CHR ''='') body;
          has_eq = (length nm < length body);
          arg = drop (Suc (length nm)) body
      in case find_long longopts nm of
           None \<Rightarrow> (Opt (CHR ''?'') None, st)
         | Some p \<Rightarrow>
             if has_eq then
               (if has_arg p = required_argument then (Opt (val p) (Some arg), st)
                else (Opt (CHR ''?'') None, st))
             else if has_arg p = required_argument then
               (case pending st of
                  [] \<Rightarrow> (Opt (CHR ''?'') None, st)
                | a # as \<Rightarrow> (Opt (val p) (Some a), st\<lparr>pending := as\<rparr>))
             else (Opt (val p) None, st))"

text \<open>An element is a non-option when it does not start with \<open>-\<close>, or is \<open>-\<close> alone.\<close>

definition nonoption :: "string \<Rightarrow> bool" where
  "nonoption a = (case a of [] \<Rightarrow> True | c # cs \<Rightarrow> if c = CHR ''-'' then cs = [] else True)"

fun skip_nonoptions :: "string list \<Rightarrow> string list \<times> string list" where
  "skip_nonoptions [] = ([], [])"
| "skip_nonoptions (a # as) =
     (if nonoption a then (case skip_nonoptions as of (ops, rest) \<Rightarrow> (a # ops, rest))
      else ([], a # as))"

text \<open>
  One call of \<^verbatim>\<open>getopt_long(argc, argv, optstring, longopts, NULL)\<close>, for an option string
  that starts with neither \<open>+\<close> nor \<open>-\<close> and without \<^verbatim>\<open>POSIXLY_CORRECT\<close> in the environment:
  non-options are passed over. The element \<open>--\<close> ends the scan, and everything behind it
  is an operand. The message getopt itself writes to stderr with a \<open>?\<close> is not recorded.
\<close>

definition getopt_long :: "string \<Rightarrow> struct_option list \<Rightarrow> getopt_state \<Rightarrow> getopt_ret \<times> getopt_state" where
  "getopt_long optstring longopts st =
     (if nextchar st \<noteq> [] then short_option optstring st
      else
        (case skip_nonoptions (pending st) of
           (ops, rest) \<Rightarrow>
             (case rest of
                [] \<Rightarrow> (EndOfOptions, st\<lparr>pending := [], skipped := skipped st @ ops\<rparr>)
              | a # as \<Rightarrow>
                  if a = ''--'' then
                    (EndOfOptions, st\<lparr>pending := [], skipped := skipped st @ ops @ as\<rparr>)
                  else if take 2 a = ''--'' then
                    long_option longopts (drop 2 a)
                      (st\<lparr>pending := as, skipped := skipped st @ ops\<rparr>)
                  else
                    short_option optstring
                      (st\<lparr>pending := as, nextchar := tl a, skipped := skipped st @ ops\<rparr>))))"

text \<open>What is left to scan; every call that returns an option makes it smaller.\<close>

definition unscanned :: "getopt_state \<Rightarrow> nat" where
  "unscanned st = length (nextchar st) + sum_list (map (\<lambda>a. Suc (length a)) (pending st))"

subsection \<open>The option table and the option loop of \<^verbatim>\<open>main\<close>\<close>

definition opts :: "struct_option list" where
  "opts =
     [\<lparr>name = ''help'', has_arg = no_argument, val = CHR ''h''\<rparr>,
      \<lparr>name = ''version'', has_arg = no_argument, val = CHR ''V''\<rparr>,
      \<lparr>name = ''bind'', has_arg = required_argument, val = CHR ''b''\<rparr>,
      \<lparr>name = ''port'', has_arg = required_argument, val = CHR ''p''\<rparr>,
      \<lparr>name = ''ssl'', has_arg = no_argument, val = CHR ''s''\<rparr>,
      \<lparr>name = ''no-upnp'', has_arg = no_argument, val = CHR ''U''\<rparr>]"

definition optstring :: string where
  "optstring = ''hVb:p:P:sU''"

text \<open>
  The configuration variables of \<^verbatim>\<open>main\<close>. \<^verbatim>\<open>prefix\<close> and \<^verbatim>\<open>bindip\<close> are pointers that take the
  value of \<^verbatim>\<open>optarg\<close>; \<^verbatim>\<open>port\<close> is an \<^verbatim>\<open>unsigned int\<close> of 32 bits.
\<close>

record config =
  prefix :: "string option"
  bindip :: "string option"
  port :: nat
  ssl :: bool
  upnp :: bool

definition default_config :: config where
  "default_config = \<lparr>prefix = None, bindip = Some ''0.0.0.0'', port = 0, ssl = False, upnp = True\<rparr>"

datatype stream = Stdout | Stderr

datatype signo = SIGINT | SIGTERM | SIGHUP | SIGUSR1 | SIGUSR2 | SIGPIPE

datatype message =
    Usage
  | PackageString
  | InvalidPortNumber string
  | EventBaseNewFailed
  | EvhttpNewFailed
  | BindSocketFailed "string option" nat
  | ReadyToShare nat
  | BoundTo "string option" nat
  | ServerReachableAt string
  | EvsignalNewFailed signo
  | SigpipeWarning

text \<open>
  How the option loop ends: with the configuration and the operands, or with a
  \<^verbatim>\<open>return\<close> from \<^verbatim>\<open>main\<close> after one message. \<open>NullOptarg\<close> stands for \<^verbatim>\<open>strtol(NULL, ...)\<close>,
  which getopt never causes for an option declared with a colon.
\<close>

datatype parse_result =
    Parsed config "string list"
  | Return stream message nat
  | NullOptarg

definition getopt_init :: "string list \<Rightarrow> getopt_state" where
  "getopt_init argv = \<lparr>pending = tl argv, nextchar = [], skipped = []\<rparr>"

text \<open>The assignment \<^verbatim>\<open>port = strtol(...)\<close> converts the \<^verbatim>\<open>long\<close> to \<^verbatim>\<open>unsigned int\<close>.\<close>

definition to_unsigned :: "int \<Rightarrow> nat" where
  "to_unsigned v = nat (v mod 2 ^ 32)"

text \<open>The test \<^verbatim>\<open>*tmp || !port || port >= 0xffff\<close> of case \<open>p\<close>.\<close>

definition invalid_port :: "string \<Rightarrow> nat \<Rightarrow> bool" where
  "invalid_port tmp p = (tmp \<noteq> [] \<or> p = 0 \<or> p \<ge> 0xffff)"

text \<open>
  Case \<open>p\<close>, lines 120 to 126: the port of an argument, or \<open>None\<close> where \<^verbatim>\<open>main\<close> prints
  \<^verbatim>\<open>Invalid port number\<close> and returns 1.
\<close>

definition parse_port :: "string \<Rightarrow> nat option" where
  "parse_port optarg =
     (case strtol optarg of
        (v, tmp) \<Rightarrow> if invalid_port tmp (to_unsigned v) then None else Some (to_unsigned v))"

text \<open>Termination of the option loop: every option returned leaves less to scan.\<close>

lemma skip_nonoptions_rest:
  "skip_nonoptions xs = (ops, rest) \<Longrightarrow>
     sum_list (map (\<lambda>a. Suc (length a)) rest) \<le> sum_list (map (\<lambda>a. Suc (length a)) xs)"
  by (induction xs arbitrary: ops rest) (auto split: if_splits prod.splits)

lemma short_option_decreases:
  "nextchar st \<noteq> [] \<Longrightarrow> short_option os st = (r, st') \<Longrightarrow> unscanned st' < unscanned st"
  by (auto simp: short_option_def unscanned_def
           split: list.splits option.splits has_arg.splits if_splits)

lemma long_option_decreases:
  "long_option lo body st = (r, st') \<Longrightarrow> unscanned st' \<le> unscanned st"
  by (auto simp: long_option_def unscanned_def Let_def
           split: list.splits option.splits if_splits)

lemma short_option_start:
  "short_option os (st\<lparr>pending := as, nextchar := tl a, skipped := sk\<rparr>) = (Opt c oa, st')
     \<Longrightarrow> unscanned st' < Suc (length a) + sum_list (map (\<lambda>a. Suc (length a)) as)"
  by (cases a)
     (auto simp: short_option_def unscanned_def
           split: list.splits option.splits has_arg.splits if_splits)

lemma getopt_long_decreases:
  assumes "getopt_long os lo st = (Opt c oa, st')"
  shows "unscanned st' < unscanned st"
proof (cases "nextchar st = []")
  case False
  with assms show ?thesis
    by (auto simp: getopt_long_def dest: short_option_decreases)
next
  case True
  obtain ops rest where sk: "skip_nonoptions (pending st) = (ops, rest)"
    by (cases "skip_nonoptions (pending st)")
  from skip_nonoptions_rest [OF sk]
  have le: "sum_list (map (\<lambda>a. Suc (length a)) rest) \<le> unscanned st"
    by (simp add: unscanned_def)
  show ?thesis
  proof (cases rest)
    case Nil
    with assms True sk show ?thesis by (simp add: getopt_long_def)
  next
    case (Cons a as)
    show ?thesis
    proof (cases "take 2 a = ''--''")
      case True
      with assms \<open>nextchar st = []\<close> sk Cons
      have "long_option lo (drop 2 a) (st\<lparr>pending := as, skipped := skipped st @ ops\<rparr>)
              = (Opt c oa, st')"
        by (auto simp: getopt_long_def split: if_splits)
      from long_option_decreases [OF this] le Cons \<open>nextchar st = []\<close> show ?thesis
        by (simp add: unscanned_def)
    next
      case False
      with assms \<open>nextchar st = []\<close> sk Cons
      have "short_option os (st\<lparr>pending := as, nextchar := tl a, skipped := skipped st @ ops\<rparr>)
              = (Opt c oa, st')"
        by (auto simp: getopt_long_def split: if_splits)
      from short_option_start [OF this] le Cons show ?thesis by simp
    qed
  qed
qed

text \<open>
  Lines 112 to 144: \<^verbatim>\<open>while ((opt = getopt_long(...)) != -1) switch (opt)\<close>. There is no
  case for \<open>h\<close> and none for \<open>?\<close>: both reach \<^verbatim>\<open>default\<close>.
\<close>

function parse_options :: "config \<Rightarrow> getopt_state \<Rightarrow> parse_result" where
  "parse_options cfg st =
     (case getopt_long optstring opts st of
        (EndOfOptions, st') \<Rightarrow> Parsed cfg (skipped st')
      | (Opt opt optarg, st') \<Rightarrow>
          if opt = CHR ''b'' then parse_options (cfg\<lparr>bindip := optarg\<rparr>) st'
          else if opt = CHR ''p'' then
            (case optarg of
               None \<Rightarrow> NullOptarg
             | Some a \<Rightarrow>
                 (case parse_port a of
                    None \<Rightarrow> Return Stderr (InvalidPortNumber a) 1
                  | Some n \<Rightarrow> parse_options (cfg\<lparr>port := n\<rparr>) st'))
          else if opt = CHR ''P'' then parse_options (cfg\<lparr>prefix := optarg\<rparr>) st'
          else if opt = CHR ''s'' then parse_options (cfg\<lparr>ssl := True\<rparr>) st'
          else if opt = CHR ''U'' then parse_options (cfg\<lparr>upnp := False\<rparr>) st'
          else if opt = CHR ''V'' then Return Stdout PackageString 0
          else Return Stdout Usage 0)"
  by pat_completeness auto
termination
  by (relation "measure (\<lambda>(cfg, st). unscanned st)") (auto dest: getopt_long_decreases sym)

declare parse_options.simps [simp del]

subsection \<open>The rest of \<^verbatim>\<open>main\<close>: actions and the environment\<close>

datatype evhttp_cmd_type =
    EVHTTP_REQ_GET | EVHTTP_REQ_POST | EVHTTP_REQ_HEAD | EVHTTP_REQ_PUT | EVHTTP_REQ_DELETE
  | EVHTTP_REQ_OPTIONS | EVHTTP_REQ_TRACE | EVHTTP_REQ_CONNECT | EVHTTP_REQ_PATCH

datatype handler = handle_file | handle_index

text \<open>
  The calls \<^verbatim>\<open>main\<close> makes, with the arguments that matter, and the destructors that run
  when it returns. \<open>event_add None\<close> is \<^verbatim>\<open>event_add(NULL, NULL)\<close>; \<open>event_free s\<close> is the deleter
  of the watcher of signal \<open>s\<close>, which a \<^verbatim>\<open>unique_ptr\<close> calls only when it holds a pointer.
\<close>

datatype action =
    setlocale
  | fprintf stream message
  | srandom
  | event_base_new
  | evhttp_new
  | evhttp_set_allowed_methods "evhttp_cmd_type set"
  | evhttp_set_gencb handler
  | evhttp_set_cb string handler
  | evhttp_bind_socket "string option" nat
  | init_charset "string option"
  | ContentType_ctor
  | ExternalIP_ctor nat "string option" bool
  | SSLMod_ctor "string option" bool
  | print_qrcode string
  | evsignal_new signo
  | event_add "signo option"
  | signal_ignore signo
  | event_base_dispatch
  | event_free signo
  | SSLMod_dtor
  | ExternalIP_dtor
  | ContentType_dtor
  | evhttp_free
  | event_base_free

text \<open>
  What the library calls return. \<open>random_value\<close> is the result of \<^verbatim>\<open>random()\<close>, between 0
  and \<open>2^31 - 1\<close>; \<open>codeset\<close> is \<^verbatim>\<open>nl_langinfo(CODESET)\<close>, \<open>None\<close> without \<^verbatim>\<open>HAVE_NL_LANGINFO\<close>;
  \<open>external_ip\<close> is the member \<^verbatim>\<open>addr\<close> of the \<^verbatim>\<open>ExternalIP\<close> built from the port, the bind
  address and the UPnP switch; \<open>evhttp_encode_uri\<close> returns \<open>None\<close> for a null pointer.
\<close>

record env =
  random_value :: nat
  event_base_new_ok :: bool
  evhttp_new_ok :: bool
  evhttp_bind_socket_ok :: "string option \<Rightarrow> nat \<Rightarrow> bool"
  codeset :: "string option"
  external_ip :: "nat \<Rightarrow> string option \<Rightarrow> bool \<Rightarrow> string option"
  evhttp_encode_uri :: "string \<Rightarrow> string option"
  evsignal_new_ok :: "signo \<Rightarrow> bool"
  signal_ok :: bool

text \<open>How the process ends: \<^verbatim>\<open>return\<close> from \<^verbatim>\<open>main\<close>, an uncaught \<^verbatim>\<open>std::bad_alloc\<close>, or
  undefined behaviour.\<close>

datatype outcome = Exit nat | Terminate | Undefined

text \<open>Lines 153 to 158: \<^verbatim>\<open>if (argv[i][0] == '.' && argv[i][1] == '/') argv[i] += 2\<close>.\<close>

fun strip_dot_slash :: "string \<Rightarrow> string" where
  "strip_dot_slash (c0 # c1 # cs) = (if c0 = CHR ''.'' \<and> c1 = CHR ''/'' then cs else c0 # c1 # cs)"
| "strip_dot_slash s = s"

text \<open>Lines 182 to 195: the allowed methods, the generic callback and the index callback.\<close>

definition index_uri :: "string \<Rightarrow> string" where
  "index_uri p = CHR ''/'' # p @ ''/''"

definition register_routes :: "string option \<Rightarrow> action list" where
  "register_routes pfx =
     [evhttp_set_allowed_methods {EVHTTP_REQ_GET, EVHTTP_REQ_HEAD},
      evhttp_set_gencb handle_file,
      (case pfx of
         None \<Rightarrow> evhttp_set_cb ''/'' handle_index
       | Some p \<Rightarrow> evhttp_set_cb (index_uri p) handle_index)]"

text \<open>Lines 198 to 203: \<^verbatim>\<open>if (!port) port = random() % 0x7bff + 0x400\<close>.\<close>

definition random_port :: "nat \<Rightarrow> nat" where
  "random_port r = r mod 0x7bff + 0x400"

definition choose_port :: "nat \<Rightarrow> nat \<Rightarrow> nat" where
  "choose_port p r = (if p = 0 then random_port r else p)"

text \<open>An \<^verbatim>\<open>unsigned int\<close> written to a stream: its decimal digits.\<close>

definition digit_char :: "nat \<Rightarrow> char" where
  "digit_char d = char_of (48 + d)"

fun dec :: "nat \<Rightarrow> string" where
  "dec n = (if n < 10 then [digit_char n] else dec (n div 10) @ [digit_char (n mod 10)])"

declare dec.simps [simp del]

text \<open>
  Lines 230 to 244: the text of \<^verbatim>\<open>server_uri\<close>, or \<open>None\<close> when \<^verbatim>\<open>evhttp_encode_uri\<close> returns
  a null pointer and \<^verbatim>\<open>std::bad_alloc\<close> is thrown.
\<close>

definition server_uri :: "env \<Rightarrow> config \<Rightarrow> string \<Rightarrow> nat \<Rightarrow> string list \<Rightarrow> string option" where
  "server_uri e cfg addr p files =
     (let u = ''http'' @ (if ssl cfg then ''s'' else []) @ ''://'' @ addr @ '':'' @ dec p @ ''/''
              @ (case prefix cfg of None \<Rightarrow> [] | Some pfx \<Rightarrow> pfx @ ''/'')
      in if length files = 1
         then (case evhttp_encode_uri e (hd files) of
                 None \<Rightarrow> None
               | Some urlenc \<Rightarrow> Some (u @ urlenc))
         else Some u)"

text \<open>Lines 228 to 248: nothing without an address, else the line on stderr and the QR code.\<close>

definition announce :: "env \<Rightarrow> config \<Rightarrow> string option \<Rightarrow> nat \<Rightarrow> string list \<Rightarrow> action list option" where
  "announce e cfg extip_addr p files =
     (case extip_addr of
        None \<Rightarrow> Some []
      | Some addr \<Rightarrow>
          (case server_uri e cfg addr p files of
             None \<Rightarrow> None
           | Some u \<Rightarrow> Some [fprintf Stderr (ServerReachableAt u), print_qrcode u]))"

text \<open>
  Lines 254 to 261. The \<^verbatim>\<open>else\<close> branch is the empty statement \<^verbatim>\<open>;\<close>, so \<^verbatim>\<open>event_add\<close> is
  the next statement of the loop body and runs in every iteration, with the pointer
  that \<^verbatim>\<open>sigevents[i]\<close> holds.
\<close>

definition sigs :: "signo list" where
  "sigs = [SIGINT, SIGTERM, SIGHUP, SIGUSR1, SIGUSR2]"

fun init_signal_handlers :: "env \<Rightarrow> signo list \<Rightarrow> action list" where
  "init_signal_handlers e [] = []"
| "init_signal_handlers e (s # ss) =
     [evsignal_new s]
     @ (if \<not> evsignal_new_ok e s then [fprintf Stderr (EvsignalNewFailed s)] else [])
     @ [event_add (if evsignal_new_ok e s then Some s else None)]
     @ init_signal_handlers e ss"

text \<open>
  The destructors at the closing brace of \<^verbatim>\<open>main\<close>, in the reverse order of the
  declarations \<^verbatim>\<open>evb\<close>, \<^verbatim>\<open>http\<close>, \<^verbatim>\<open>ct\<close>, \<^verbatim>\<open>extip\<close>, \<^verbatim>\<open>ssl_mod\<close>, \<^verbatim>\<open>sigevents\<close>; the elements of the
  array from the last to the first.
\<close>

definition destroy_sigevents :: "env \<Rightarrow> action list" where
  "destroy_sigevents e = map event_free (filter (evsignal_new_ok e) (rev sigs))"

definition destroy_all :: "env \<Rightarrow> action list" where
  "destroy_all e =
     destroy_sigevents e @ [SSLMod_dtor, ExternalIP_dtor, ContentType_dtor, evhttp_free, event_base_free]"

text \<open>Lines 160 to 271, for the configuration and the file operands of the option loop.\<close>

definition bootstrap :: "env \<Rightarrow> config \<Rightarrow> string list \<Rightarrow> action list \<times> outcome" where
  "bootstrap e cfg files =
     (if \<not> event_base_new_ok e then
        ([srandom, event_base_new, fprintf Stderr EventBaseNewFailed], Exit 1)
      else if \<not> evhttp_new_ok e then
        ([srandom, event_base_new, evhttp_new, fprintf Stderr EvhttpNewFailed, event_base_free],
         Exit 1)
      else
        (let p = choose_port (port cfg) (random_value e);
             bound = [srandom, event_base_new, evhttp_new] @ register_routes (prefix cfg)
                     @ [evhttp_bind_socket (bindip cfg) p]
         in if \<not> evhttp_bind_socket_ok e (bindip cfg) p then
              (bound @ [fprintf Stderr (BindSocketFailed (bindip cfg) p), evhttp_free,
                        event_base_free],
               Exit 1)
            else
              (let addr = external_ip e p (bindip cfg) (upnp cfg);
                   ready = bound
                     @ [init_charset (if codeset e = Some [] then None else codeset e),
                        ContentType_ctor,
                        ExternalIP_ctor p (bindip cfg) (upnp cfg),
                        SSLMod_ctor addr (ssl cfg),
                        fprintf Stderr (ReadyToShare (length files)),
                        fprintf Stderr (BoundTo (bindip cfg) p)]
               in case announce e cfg addr p files of
                    None \<Rightarrow> (ready, Terminate)
                  | Some announced \<Rightarrow>
                      (ready @ announced
                       @ init_signal_handlers e sigs
                       @ [signal_ignore SIGPIPE]
                       @ (if \<not> signal_ok e then [fprintf Stderr SigpipeWarning] else [])
                       @ [event_base_dispatch]
                       @ destroy_all e,
                       Exit 0))))"

text \<open>The whole of \<^verbatim>\<open>main\<close>: the option loop, the test for operands, the \<open>./\<close> loop, the rest.\<close>

definition main :: "env \<Rightarrow> string list \<Rightarrow> action list \<times> outcome" where
  "main e argv =
     (case parse_options default_config (getopt_init argv) of
        NullOptarg \<Rightarrow> ([setlocale], Undefined)
      | Return strm m code \<Rightarrow> ([setlocale, fprintf strm m], Exit code)
      | Parsed cfg operands \<Rightarrow>
          if operands = [] then ([setlocale, fprintf Stderr Usage], Exit 1)
          else
            (case bootstrap e cfg (map strip_dot_slash operands) of
               (actions, out) \<Rightarrow> (setlocale # actions, out)))"

text \<open>An environment in which every call succeeds and no external address is found.\<close>

definition env_ok :: env where
  "env_ok =
     \<lparr>random_value = 0, event_base_new_ok = True, evhttp_new_ok = True,
      evhttp_bind_socket_ok = (\<lambda>b p. True), codeset = Some ''UTF-8'',
      external_ip = (\<lambda>p b u. None), evhttp_encode_uri = Some,
      evsignal_new_ok = (\<lambda>s. True), signal_ok = True\<rparr>"

subsection \<open>Notions used to state the properties\<close>

text \<open>
  A flag that the tables of \<^verbatim>\<open>main\<close> do not know: \<open>-c...\<close> with \<open>c\<close> not in the option
  string, or \<open>--name\<close> with a name that selects no entry of \<open>opts\<close>.
\<close>

definition unknown_flag :: "string \<Rightarrow> bool" where
  "unknown_flag a =
     (case a of
        c0 # c1 # cs \<Rightarrow>
          c0 = CHR ''-'' \<and>
          (if c1 = CHR ''-''
           then cs \<noteq> [] \<and> find_long opts (takeWhile (\<lambda>c. c \<noteq> CHR ''='') cs) = None
           else lookup_short optstring c1 = None)
      | _ \<Rightarrow> False)"

text \<open>
  The generator outputs that give a port when none was supplied: \<^verbatim>\<open>random()\<close> returns a
  value from 0 to \<open>2^31 - 1\<close>.
\<close>

definition outputs_for :: "nat \<Rightarrow> nat set" where
  "outputs_for p = {r. r < 2 ^ 31 \<and> choose_port 0 r = p}"

text \<open>In a list of actions, \<open>a\<close> happens and \<open>b\<close> happens after the first \<open>a\<close>.\<close>

definition precedes :: "action \<Rightarrow> action \<Rightarrow> action list \<Rightarrow> bool" where
  "precedes a b tr = (b \<in> set (drop 1 (dropWhile (\<lambda>x. x \<noteq> a) tr)))"

text \<open>The addresses announced on stderr and the texts given to the QR renderer.\<close>

fun reachable_line :: "action \<Rightarrow> string option" where
  "reachable_line (fprintf strm (ServerReachableAt u)) = Some u"
| "reachable_line a = None"

fun qrcode :: "action \<Rightarrow> string option" where
  "qrcode (print_qrcode u) = Some u"
| "qrcode a = None"

definition reachable_lines :: "action list \<Rightarrow> string list" where
  "reachable_lines tr = List.map_filter reachable_line tr"

definition qrcodes :: "action list \<Rightarrow> string list" where
  "qrcodes tr = List.map_filter qrcode tr"

text \<open>
  The listener as libevent documents it: \<^verbatim>\<open>evhttp_new\<close> allows GET, POST, HEAD, PUT and
  DELETE; \<^verbatim>\<open>evhttp_set_cb\<close> adds a callback for one path unless the path has one;
  \<^verbatim>\<open>evhttp_set_gencb\<close> sets the callback for every request no path callback catches. A
  request with a method that is not allowed is refused before any callback is looked
  up; otherwise the callback of the request's path runs, or the generic one.
\<close>

record evhttp =
  allowed_methods :: "evhttp_cmd_type set"
  gencb :: "handler option"
  callbacks :: "(string \<times> handler) list"

definition evhttp_init :: evhttp where
  "evhttp_init =
     \<lparr>allowed_methods =
        {EVHTTP_REQ_GET, EVHTTP_REQ_POST, EVHTTP_REQ_HEAD, EVHTTP_REQ_PUT, EVHTTP_REQ_DELETE},
      gencb = None, callbacks = []\<rparr>"

fun configure :: "evhttp \<Rightarrow> action \<Rightarrow> evhttp" where
  "configure h (evhttp_set_allowed_methods ms) = h\<lparr>allowed_methods := ms\<rparr>"
| "configure h (evhttp_set_gencb f) = h\<lparr>gencb := Some f\<rparr>"
| "configure h (evhttp_set_cb uri f) =
     (case map_of (callbacks h) uri of
        None \<Rightarrow> h\<lparr>callbacks := callbacks h @ [(uri, f)]\<rparr>
      | Some g \<Rightarrow> h)"
| "configure h a = h"

datatype reply = Callback handler | NotAllowed | NotFound

definition evhttp_handle_request :: "evhttp \<Rightarrow> evhttp_cmd_type \<Rightarrow> string \<Rightarrow> reply" where
  "evhttp_handle_request h m path =
     (if m \<in> allowed_methods h then
        (case map_of (callbacks h) path of
           Some f \<Rightarrow> Callback f
         | None \<Rightarrow> (case gencb h of Some f \<Rightarrow> Callback f | None \<Rightarrow> NotFound))
      else NotAllowed)"

section \<open>Properties\<close>

lemmas getopt_defs =
  getopt_init_def getopt_long_def nonoption_def long_option_def short_option_def
  find_long_def opts_def optstring_def parse_options.simps

lemmas strtol_defs =
  parse_port_def strtol_def isspace_def digit_val_def invalid_port_def to_unsigned_def
  clamp_long_def LONG_MAX_def LONG_MIN_def

subsection \<open>The option loop\<close>

text \<open>
  C1. The usage text of the program offers \<open>--prefix PFX\<close> beside \<open>-P PFX\<close>, but the table
  \<open>opts\<close> has no entry \<open>prefix\<close>: for \<open>--prefix foo file\<close> getopt_long returns \<open>?\<close>, and
  \<^verbatim>\<open>main\<close> prints the usage text on stdout and returns 0, whatever the environment. The
  short form \<open>-P foo file\<close> is parsed, with the prefix \<open>foo\<close> and the operand \<open>file\<close>.
\<close>

theorem long_prefix_not_accepted:
  "main e [''pshs'', ''--prefix'', ''foo'', ''file''] = ([setlocale, fprintf Stdout Usage], Exit 0)
   \<and> parse_options default_config (getopt_init [''pshs'', ''-P'', ''foo'', ''file''])
       = Parsed (default_config\<lparr>prefix := Some ''foo''\<rparr>) [''file'']"
  by (simp add: main_def getopt_defs)

lemma skip_nonoptions_append:
  "list_all nonoption ops \<Longrightarrow> \<not> nonoption a \<Longrightarrow>
     skip_nonoptions (ops @ a # rest) = (ops, a # rest)"
  by (induction ops) auto

lemma unknown_flag_option: "unknown_flag a \<Longrightarrow> \<not> nonoption a"
  by (auto simp: unknown_flag_def nonoption_def split: list.splits)

lemma getopt_long_unknown:
  assumes "list_all nonoption ops" and "unknown_flag a"
  shows "fst (getopt_long optstring opts \<lparr>pending = ops @ a # rest, nextchar = [], skipped = []\<rparr>)
           = Opt (CHR ''?'') None"
proof -
  from assms have sk: "skip_nonoptions (ops @ a # rest) = (ops, a # rest)"
    by (simp add: skip_nonoptions_append unknown_flag_option)
  from assms(2) obtain c1 cs where a: "a = CHR ''-'' # c1 # cs"
    by (auto simp: unknown_flag_def split: list.splits)
  show ?thesis
  proof (cases "c1 = CHR ''-''")
    case True
    with assms(2) a have "cs \<noteq> []" "find_long opts (takeWhile (\<lambda>c. c \<noteq> CHR ''='') cs) = None"
      by (simp_all add: unknown_flag_def)
    with a True sk show ?thesis
      by (simp add: getopt_long_def long_option_def)
  next
    case False
    with assms(2) a have "lookup_short optstring c1 = None"
      by (simp add: unknown_flag_def)
    with a False sk show ?thesis
      by (simp add: getopt_long_def short_option_def)
  qed
qed

text \<open>The \<^verbatim>\<open>default\<close> case: whenever getopt_long returns \<open>?\<close>, the loop ends in the usage
  text on stdout and the return value 0.\<close>

lemma parse_options_default:
  "fst (getopt_long optstring opts st) = Opt (CHR ''?'') oa \<Longrightarrow>
     parse_options cfg st = Return Stdout Usage 0"
  by (cases "getopt_long optstring opts st") (simp add: parse_options.simps)

text \<open>
  C2, as the claim states it, fails: for \<open>-x file\<close> the process prints the usage text on
  stdout and ends with exit code 0, not 1.
\<close>

theorem unknown_flag_exit_1_counterexample:
  "main env_ok [''pshs'', ''-x'', ''file''] = ([setlocale, fprintf Stdout Usage], Exit 0)
   \<and> snd (main env_ok [''pshs'', ''-x'', ''file'']) \<noteq> Exit 1"
  by (simp add: main_def getopt_defs)

text \<open>
  C2, amended. When the first element of the argument vector that is not an operand is
  an unknown flag, \<^verbatim>\<open>main\<close> takes the \<^verbatim>\<open>default\<close> case, the one \<open>-h\<close> takes: it prints the usage
  text on stdout and returns 0, in every environment and whatever follows the flag.
\<close>

theorem unknown_flag_usage_exit_0:
  assumes "list_all nonoption ops" and "unknown_flag a"
  shows "main e (prog # ops @ a # rest) = ([setlocale, fprintf Stdout Usage], Exit 0)"
  using parse_options_default [OF getopt_long_unknown [OF assms]]
  by (simp add: main_def getopt_init_def)

theorem unknown_flag_usage_exit_0_witness:
  "list_all nonoption [''a.txt''] \<and> unknown_flag ''--bogus=1''
   \<and> main env_ok [''pshs'', ''a.txt'', ''--bogus=1'', ''b.txt'']
       = ([setlocale, fprintf Stdout Usage], Exit 0)"
  using unknown_flag_usage_exit_0 [of "[''a.txt'']" "''--bogus=1''" env_ok "''pshs''" "[''b.txt'']"]
  by (simp add: nonoption_def unknown_flag_def find_long_def opts_def optstring_def)

subsection \<open>File operands\<close>

text \<open>
  C10. The loop over the operands removes the two characters \<open>./\<close> from the front of an
  operand once: \<open>./a.txt\<close> becomes \<open>a.txt\<close>, \<open>././a.txt\<close> becomes \<open>./a.txt\<close>, and for any \<open>s\<close> the
  operand \<open>./s\<close> becomes \<open>s\<close>, whatever \<open>s\<close> starts with. An operand that does not start with
  \<open>./\<close> is left as it is, so \<open>../a.txt\<close>, \<open>.\<close> and the empty string are. The rest of \<^verbatim>\<open>main\<close>
  works on the operands of the option loop with this applied to each of them.
\<close>

theorem strip_dot_slash_once:
  "strip_dot_slash ''./a.txt'' = ''a.txt''
   \<and> strip_dot_slash ''././a.txt'' = ''./a.txt''
   \<and> strip_dot_slash ''../a.txt'' = ''../a.txt''
   \<and> strip_dot_slash ''.'' = ''.''
   \<and> strip_dot_slash '''' = ''''
   \<and> strip_dot_slash (''./'' @ s) = s
   \<and> (take 2 t \<noteq> ''./'' \<longrightarrow> strip_dot_slash t = t)
   \<and> (parse_options default_config (getopt_init argv) = Parsed cfg operands \<and> operands \<noteq> []
        \<longrightarrow> main e argv
            = (case bootstrap e cfg (map strip_dot_slash operands) of
                 (actions, out) \<Rightarrow> (setlocale # actions, out)))"
proof -
  have "take 2 t \<noteq> ''./'' \<longrightarrow> strip_dot_slash t = t"
    by (cases t rule: strip_dot_slash.cases) auto
  then show ?thesis by (simp add: main_def)
qed

theorem strip_dot_slash_once_witness:
  "strip_dot_slash (''./'' @ ''./b'') = ''./b''
   \<and> take 2 ''.hidden'' \<noteq> ''./'' \<and> strip_dot_slash ''.hidden'' = ''.hidden''
   \<and> parse_options default_config (getopt_init [''pshs'', ''././a.txt'', ''--'', ''./-b''])
       = Parsed default_config [''././a.txt'', ''./-b'']
   \<and> main env_ok [''pshs'', ''././a.txt'', ''--'', ''./-b'']
       = (case bootstrap env_ok default_config [''./a.txt'', ''-b''] of
            (actions, out) \<Rightarrow> (setlocale # actions, out))"
proof -
  have p: "parse_options default_config (getopt_init [''pshs'', ''././a.txt'', ''--'', ''./-b''])
             = Parsed default_config [''././a.txt'', ''./-b'']"
    by (simp add: getopt_defs)
  from strip_dot_slash_once
         [of "''./b''" "''.hidden''" "[''pshs'', ''././a.txt'', ''--'', ''./-b'']" default_config
             "[''././a.txt'', ''./-b'']" env_ok]
       p
  show ?thesis by simp
qed

subsection \<open>Signal watchers\<close>

text \<open>
  C3. When \<^verbatim>\<open>evsignal_new\<close> fails for SIGINT, the warning is printed and then \<^verbatim>\<open>event_add\<close>
  is called all the same, with the null pointer: the arming step is not guarded by the
  result of the installation.
\<close>

theorem event_add_after_failed_evsignal_new:
  "init_signal_handlers (env_ok\<lparr>evsignal_new_ok := (\<lambda>s. s \<noteq> SIGINT)\<rparr>) sigs
     = [evsignal_new SIGINT, fprintf Stderr (EvsignalNewFailed SIGINT), event_add None,
        evsignal_new SIGTERM, event_add (Some SIGTERM),
        evsignal_new SIGHUP, event_add (Some SIGHUP),
        evsignal_new SIGUSR1, event_add (Some SIGUSR1),
        evsignal_new SIGUSR2, event_add (Some SIGUSR2)]
   \<and> event_add None
       \<in> set (fst (main (env_ok\<lparr>evsignal_new_ok := (\<lambda>s. s \<noteq> SIGINT)\<rparr>) [''pshs'', ''file'']))"
  by (simp add: main_def getopt_defs bootstrap_def env_ok_def announce_def sigs_def Let_def)

subsection \<open>The port option\<close>

lemma of_char_digit_char: "d < 10 \<Longrightarrow> (of_char (digit_char d) :: nat) = 48 + d"
  by (simp add: digit_char_def)

lemma digit_val_digit_char: "d < 10 \<Longrightarrow> digit_val (digit_char d) = Some d"
  by (simp add: digit_val_def of_char_digit_char)

lemma digit_char_neq:
  assumes "d < 10" and "(of_char c :: nat) < 48"
  shows "digit_char d \<noteq> c"
proof
  assume "digit_char d = c"
  then have "(of_char (digit_char d) :: nat) = of_char c" by simp
  with assms show False by (simp add: of_char_digit_char)
qed

lemma digit_char_zero: "d < 10 \<Longrightarrow> digit_char d = CHR ''0'' \<longleftrightarrow> d = 0"
proof
  assume "d < 10" "digit_char d = CHR ''0''"
  then have "(of_char (digit_char d) :: nat) = of_char CHR ''0''" by simp
  with \<open>d < 10\<close> show "d = 0" by (simp add: of_char_digit_char)
next
  assume "d = 0"
  have "char_of (of_char CHR ''0'' :: nat) = CHR ''0''" by (rule char_of_char)
  with \<open>d = 0\<close> show "digit_char d = CHR ''0''" by (simp add: digit_char_def)
qed

lemma digit_char_0: "digit_char 0 = CHR ''0''"
  using digit_char_zero [of 0] by simp

lemma digit_char_not_space: "d < 10 \<Longrightarrow> \<not> isspace (digit_char d)"
  by (simp add: isspace_def digit_char_neq)

text \<open>The digit loop reads the decimal digits of \<open>n\<close> back as \<open>n\<close>.\<close>

lemma parse_digits_dec:
  "parse_digits 10 acc (dec n @ s) = parse_digits 10 (acc * 10 ^ length (dec n) + n) s"
proof (induction n arbitrary: acc s rule: dec.induct)
  case (1 n)
  show ?case
  proof (cases "n < 10")
    case True
    then show ?thesis by (simp add: dec.simps [of n] digit_val_digit_char)
  next
    case False
    have "parse_digits 10 acc (dec n @ s)
            = parse_digits 10 acc (dec (n div 10) @ digit_char (n mod 10) # s)"
      using False by (simp add: dec.simps [of n])
    also have "\<dots> = parse_digits 10 (acc * 10 ^ length (dec (n div 10)) + n div 10)
                       (digit_char (n mod 10) # s)"
      using False by (rule "1.IH")
    also have "\<dots> = parse_digits 10
                       ((acc * 10 ^ length (dec (n div 10)) + n div 10) * 10 + n mod 10) s"
      by (simp add: digit_val_digit_char)
    also have "(acc * 10 ^ length (dec (n div 10)) + n div 10) * 10 + n mod 10
                 = acc * 10 ^ length (dec n) + n"
      using False by (simp add: dec.simps [of n] algebra_simps)
    finally show ?thesis .
  qed
qed

lemma dec_first: "0 < n \<Longrightarrow> \<exists>d cs. dec n = digit_char d # cs \<and> 0 < d \<and> d < 10"
proof (induction n rule: dec.induct)
  case (1 n)
  show ?case
  proof (cases "n < 10")
    case True
    with "1.prems" show ?thesis by (auto simp: dec.simps [of n] intro: exI [of _ n])
  next
    case False
    then have "0 < n div 10" by simp
    with False "1.IH" obtain d cs where "dec (n div 10) = digit_char d # cs" "0 < d" "d < 10"
      by blast
    with False show ?thesis by (auto simp: dec.simps [of n])
  qed
qed

lemma strtol_dec: "strtol (dec n) = (clamp_long (int n), [])"
proof (cases "n = 0")
  case True
  then show ?thesis
    by (simp add: dec.simps [of 0] digit_char_0 strtol_def isspace_def digit_val_def
                  clamp_long_def LONG_MAX_def LONG_MIN_def)
next
  case False
  then obtain d cs where d: "dec n = digit_char d # cs" "0 < d" "d < 10"
    using dec_first by blast
  have pd: "parse_digits 10 0 (digit_char d # cs) = (n, [])"
    using parse_digits_dec [of 0 n "[]"] d(1) by simp
  from d show ?thesis
    using pd by (simp add: strtol_def Let_def digit_char_not_space digit_char_neq digit_char_zero
                      del: parse_digits.simps split: list.splits)
qed

lemma parse_port_dec_valid: "1 \<le> n \<Longrightarrow> n \<le> 65534 \<Longrightarrow> parse_port (dec n) = Some n"
  by (simp add: parse_port_def strtol_dec clamp_long_def LONG_MAX_def LONG_MIN_def
                to_unsigned_def invalid_port_def)

lemma parse_port_dec_invalid: "n = 0 \<or> 65535 \<le> n \<and> n < 2 ^ 32 \<Longrightarrow> parse_port (dec n) = None"
  by (auto simp: parse_port_def strtol_dec clamp_long_def LONG_MAX_def LONG_MIN_def
                 to_unsigned_def invalid_port_def)

lemma parse_port_tmp: "snd (strtol a) \<noteq> [] \<Longrightarrow> parse_port a = None"
  by (cases "strtol a") (simp add: parse_port_def invalid_port_def)

lemma parse_port_Some: "parse_port a = Some m \<Longrightarrow> 1 \<le> m \<and> m \<le> 65535"
  by (cases "strtol a") (auto simp: parse_port_def invalid_port_def split: if_splits)

text \<open>One turn of the loop at \<open>-p a\<close>.\<close>

lemma parse_options_p:
  "parse_options cfg \<lparr>pending = ''-p'' # a # rest, nextchar = [], skipped = []\<rparr>
     = (case parse_port a of
          None \<Rightarrow> Return Stderr (InvalidPortNumber a) 1
        | Some n \<Rightarrow> parse_options (cfg\<lparr>port := n\<rparr>) \<lparr>pending = rest, nextchar = [], skipped = []\<rparr>)"
  by (subst parse_options.simps)
     (simp add: getopt_long_def nonoption_def short_option_def optstring_def)

lemma parse_options_file:
  "parse_options cfg \<lparr>pending = [''file''], nextchar = [], skipped = []\<rparr> = Parsed cfg [''file'']"
  by (subst parse_options.simps) (simp add: getopt_long_def nonoption_def)

text \<open>
  C4, as the claim states it, fails: the value 0 given to the port option does not
  request a random port, it is an invalid port number and the process ends with 1; and
  the value 65535 is not accepted either.
\<close>

theorem port_zero_random_counterexample:
  "main env_ok [''pshs'', ''--port'', ''0'', ''file'']
     = ([setlocale, fprintf Stderr (InvalidPortNumber ''0'')], Exit 1)
   \<and> main env_ok [''pshs'', ''-p'', ''0'', ''file'']
     = ([setlocale, fprintf Stderr (InvalidPortNumber ''0'')], Exit 1)
   \<and> main env_ok [''pshs'', ''-p'', ''65535'', ''file'']
     = ([setlocale, fprintf Stderr (InvalidPortNumber ''65535'')], Exit 1)"
  by (simp add: main_def getopt_defs strtol_defs)

text \<open>
  C4, amended. A port value written as the decimal number \<open>n\<close> is accepted when
  \<open>1 \<le> n \<le> 65534\<close>, and \<open>n\<close> is then the port of the configuration. It is an invalid port
  number when \<open>n = 0\<close> or \<open>65535 < n < 2^32\<close>, and so is every value that strtol does not
  read to its end. An accepted port is never 0 and fits 16 bits, and it is used as it
  is, with no random draw. For \<open>-p a file\<close>, an invalid value ends the process with the
  message on stderr and exit code 1, before anything else is done; a valid one starts
  the server with that port.
\<close>

theorem port_option_range:
  "(1 \<le> n \<and> n \<le> 65534 \<longrightarrow> parse_port (dec n) = Some n)
   \<and> (n = 0 \<or> 65535 < n \<and> n < 2 ^ 32 \<longrightarrow> parse_port (dec n) = None)
   \<and> (snd (strtol a) \<noteq> [] \<longrightarrow> parse_port a = None)
   \<and> (parse_port a = Some m \<longrightarrow> 1 \<le> m \<and> m \<le> 65535 \<and> choose_port m r = m)
   \<and> main e [prog, ''-p'', a, ''file'']
       = (case parse_port a of
            None \<Rightarrow> ([setlocale, fprintf Stderr (InvalidPortNumber a)], Exit 1)
          | Some m \<Rightarrow>
              (case bootstrap e (default_config\<lparr>port := m\<rparr>) [''file''] of
                 (actions, out) \<Rightarrow> (setlocale # actions, out)))"
proof -
  have "parse_port a = Some m \<longrightarrow> 1 \<le> m \<and> m \<le> 65535 \<and> choose_port m r = m"
    by (auto dest: parse_port_Some simp: choose_port_def)
  moreover have "main e [prog, ''-p'', a, ''file'']
       = (case parse_port a of
            None \<Rightarrow> ([setlocale, fprintf Stderr (InvalidPortNumber a)], Exit 1)
          | Some m \<Rightarrow>
              (case bootstrap e (default_config\<lparr>port := m\<rparr>) [''file''] of
                 (actions, out) \<Rightarrow> (setlocale # actions, out)))"
    by (simp add: main_def getopt_init_def parse_options_p parse_options_file
             split: option.splits)
  ultimately show ?thesis
    by (simp add: parse_port_dec_valid parse_port_dec_invalid parse_port_tmp)
qed

theorem port_option_range_witness:
  "parse_port (dec 8080) = Some 8080
   \<and> parse_port (dec 65536) = None
   \<and> snd (strtol ''80a'') \<noteq> [] \<and> parse_port ''80a'' = None
   \<and> parse_port ''8080'' = Some 8080 \<and> choose_port 8080 7 = 8080
   \<and> main env_ok [''pshs'', ''-p'', ''80a'', ''file'']
       = ([setlocale, fprintf Stderr (InvalidPortNumber ''80a'')], Exit 1)"
  using port_option_range [of 8080 "''80a''" 8080 7 env_ok "''pshs''"]
        port_option_range [of 65536 "''8080''" 8080 7 env_ok "''pshs''"]
  by (simp add: strtol_defs)

subsection \<open>The random port\<close>

lemma residue_class:
  fixes k c :: nat
  assumes k: "k < 31743"
    and c: "\<And>j. k + j * 31743 < 2147483648 \<longleftrightarrow> j < c"
  shows "{r. r < 2147483648 \<and> r mod 31743 = k} = (\<lambda>j. k + j * 31743) ` {..<c}"
proof (intro set_eqI iffI)
  fix r assume "r \<in> {r. r < 2147483648 \<and> r mod 31743 = k}"
  then have r: "r < 2147483648" "r mod 31743 = k" by simp_all
  have eq: "r = k + (r div 31743) * 31743"
    using r(2) div_mult_mod_eq [of r 31743] by simp
  with r(1) have "k + (r div 31743) * 31743 < 2147483648" by simp
  then have "r div 31743 < c" by (simp add: c)
  with eq show "r \<in> (\<lambda>j. k + j * 31743) ` {..<c}" by blast
next
  fix r assume "r \<in> (\<lambda>j. k + j * 31743) ` {..<c}"
  then obtain j where j: "j < c" "r = k + j * 31743" by blast
  then have "r < 2147483648" by (simp add: c)
  moreover from j k have "r mod 31743 = k" by simp
  ultimately show "r \<in> {r. r < 2147483648 \<and> r mod 31743 = k}" by simp
qed

lemma card_residue_class:
  fixes k c :: nat
  assumes "k < 31743" and "\<And>j. k + j * 31743 < 2147483648 \<longleftrightarrow> j < c"
  shows "card {r. r < 2147483648 \<and> r mod 31743 = k} = c"
proof -
  have "inj_on (\<lambda>j. k + j * 31743) {..<c}" by (simp add: inj_on_def)
  then show ?thesis
    by (simp add: residue_class [OF assms] card_image)
qed

lemma outputs_for_residue:
  "1024 \<le> p \<Longrightarrow> outputs_for p = {r. r < 2147483648 \<and> r mod 31743 = p - 1024}"
  by (auto simp: outputs_for_def choose_port_def random_port_def)

text \<open>\<open>2^31 = 31743 * 67652 + 6212\<close>: the first 6212 ports have one more output each.\<close>

lemma card_outputs_for:
  assumes "1024 \<le> p" and "p \<le> 32766"
  shows "card (outputs_for p) = (if p \<le> 7235 then 67653 else 67652)"
proof (cases "p \<le> 7235")
  case True
  have "card {r. r < 2147483648 \<and> r mod 31743 = p - 1024} = 67653"
    using assms True by (intro card_residue_class) arith+
  with assms True show ?thesis by (simp add: outputs_for_residue)
next
  case False
  have "card {r. r < 2147483648 \<and> r mod 31743 = p - 1024} = 67652"
    using assms False by (intro card_residue_class) arith+
  with assms False show ?thesis by (simp add: outputs_for_residue)
qed

lemma random_port_bounds: "1024 \<le> random_port r \<and> random_port r \<le> 32766"
proof -
  have "r mod 31743 < 31743" by simp
  then show ?thesis unfolding random_port_def by arith
qed

text \<open>
  C5, as the claim states it, fails: the outputs of the generator are not shared out
  equally, port 1024 has one more than port 32766; and no output gives port 32767.
\<close>

theorem random_port_uniform_counterexample:
  "card (outputs_for 1024) \<noteq> card (outputs_for 32766) \<and> outputs_for 32767 = {}"
proof -
  have "random_port r \<noteq> 32767" for r
    using random_port_bounds [of r] by simp
  then have "outputs_for 32767 = {}"
    by (simp add: outputs_for_def choose_port_def)
  then show ?thesis
    using card_outputs_for [of 1024] card_outputs_for [of 32766] by simp
qed

text \<open>
  C5, amended. With no port supplied the port is \<^verbatim>\<open>random() % 0x7bff + 0x400\<close>. Every
  port from 1024 to 32766 is a possible outcome, and the \<open>2^31\<close> outputs of the generator
  are shared out almost equally: 67653 outputs for each port up to 7235, 67652 for
  each port above.
\<close>

theorem random_port_distribution:
  assumes "1024 \<le> p" and "p \<le> 32766"
  shows "p - 1024 < 2 ^ 31 \<and> choose_port 0 (p - 1024) = p
         \<and> card (outputs_for p) = (if p \<le> 7235 then 67653 else 67652)"
  using assms card_outputs_for [OF assms] by (simp add: choose_port_def random_port_def)

theorem random_port_distribution_witness:
  "(1024::nat) \<le> 8000 \<and> (8000::nat) \<le> 32766 \<and> choose_port 0 (8000 - 1024) = 8000
   \<and> card (outputs_for 8000) = 67652"
  using random_port_distribution [of 8000] by simp

subsection \<open>The actions of a run\<close>

lemma init_signal_handlers_actions:
  "a \<in> set (init_signal_handlers e ss) \<Longrightarrow>
     (\<exists>s. a = evsignal_new s) \<or> (\<exists>s. a = fprintf Stderr (EvsignalNewFailed s)) \<or> (\<exists>x. a = event_add x)"
  by (induction ss) (auto split: if_splits)

lemma announce_actions:
  "announce e cfg addr p files = Some ann \<Longrightarrow> a \<in> set ann \<Longrightarrow>
     (\<exists>u. a = fprintf Stderr (ServerReachableAt u)) \<or> (\<exists>u. a = print_qrcode u)"
  by (auto simp: announce_def split: option.splits)

lemma destroy_sigevents_actions: "a \<in> set (destroy_sigevents e) \<Longrightarrow> \<exists>s. a = event_free s"
  by (auto simp: destroy_sigevents_def)

lemma main_Parsed:
  assumes "parse_options default_config (getopt_init argv) = Parsed cfg operands"
    and "operands \<noteq> []"
  shows "fst (main e argv) = setlocale # fst (bootstrap e cfg (map strip_dot_slash operands))"
    and "snd (main e argv) = snd (bootstrap e cfg (map strip_dot_slash operands))"
  using assms by (simp_all add: main_def split: prod.splits)

text \<open>The port the listener is bound to.\<close>

lemma bootstrap_bind_socket:
  assumes "evhttp_bind_socket b q \<in> set (fst (bootstrap e cfg files))"
  shows "q = choose_port (port cfg) (random_value e) \<and> b = bindip cfg"
  using assms
  by (auto simp: bootstrap_def Let_def register_routes_def destroy_all_def
           split: if_splits option.splits
           dest: init_signal_handlers_actions announce_actions destroy_sigevents_actions)

text \<open>
  C6. When the option loop leaves the port at 0, the port chosen from any value of the
  generator lies between 1024 and 32767, and every \<^verbatim>\<open>evhttp_bind_socket\<close> call of the run is
  made with a port in that range.
\<close>

theorem random_port_in_range:
  assumes "parse_options default_config (getopt_init argv) = Parsed cfg operands"
    and "port cfg = 0"
  shows "1024 \<le> choose_port (port cfg) r \<and> choose_port (port cfg) r \<le> 32767
         \<and> (evhttp_bind_socket b q \<in> set (fst (main e argv)) \<longrightarrow> 1024 \<le> q \<and> q \<le> 32767)"
proof -
  have range: "1024 \<le> choose_port (port cfg) x \<and> choose_port (port cfg) x \<le> 32767" for x
    using assms(2) random_port_bounds [of x] by (simp add: choose_port_def)
  have "1024 \<le> q \<and> q \<le> 32767" if q: "evhttp_bind_socket b q \<in> set (fst (main e argv))"
  proof (cases "operands = []")
    case True
    with assms(1) q show ?thesis by (simp add: main_def)
  next
    case False
    with assms(1) q have "evhttp_bind_socket b q \<in> set (fst (bootstrap e cfg (map strip_dot_slash operands)))"
      by (simp add: main_Parsed)
    then show ?thesis using range by (auto dest: bootstrap_bind_socket)
  qed
  with range show ?thesis by blast
qed

theorem random_port_in_range_witness:
  "parse_options default_config (getopt_init [''pshs'', ''file'']) = Parsed default_config [''file'']
   \<and> port default_config = 0
   \<and> choose_port (port default_config) 2147483647 = 7235
   \<and> evhttp_bind_socket (Some ''0.0.0.0'') 7235
       \<in> set (fst (main (env_ok\<lparr>random_value := 2147483647\<rparr>) [''pshs'', ''file'']))
   \<and> (1024::nat) \<le> 7235 \<and> (7235::nat) \<le> 32767"
  using random_port_in_range [of "[''pshs'', ''file'']" default_config "[''file'']" 2147483647
          "Some ''0.0.0.0''" 7235 "env_ok\<lparr>random_value := 2147483647\<rparr>"]
  by (simp add: main_def getopt_defs bootstrap_def Let_def env_ok_def default_config_def
                choose_port_def random_port_def register_routes_def announce_def)

subsection \<open>Release order\<close>

lemma dropWhile_until:
  "x \<notin> set xs \<Longrightarrow> dropWhile (\<lambda>a. a \<noteq> x) (xs @ x # ys) = x # ys"
  by (induction xs) auto

lemma bootstrap_dispatch:
  assumes "event_base_dispatch \<in> set (fst (bootstrap e cfg files))"
  shows "\<exists>pre. event_base_dispatch \<notin> set pre
           \<and> bootstrap e cfg files = (pre @ event_base_dispatch # destroy_all e, Exit 0)"
proof -
  let ?p = "choose_port (port cfg) (random_value e)"
  let ?addr = "external_ip e ?p (bindip cfg) (upnp cfg)"
  from assms have ok: "event_base_new_ok e" "evhttp_new_ok e"
      "evhttp_bind_socket_ok e (bindip cfg) ?p"
    by (auto simp: bootstrap_def Let_def register_routes_def split: if_splits option.splits)
  with assms obtain ann where ann: "announce e cfg ?addr ?p files = Some ann"
    by (cases "announce e cfg ?addr ?p files")
       (auto simp: bootstrap_def Let_def register_routes_def split: option.splits)
  let ?pre = "[srandom, event_base_new, evhttp_new] @ register_routes (prefix cfg)
      @ [evhttp_bind_socket (bindip cfg) ?p,
         init_charset (if codeset e = Some [] then None else codeset e),
         ContentType_ctor, ExternalIP_ctor ?p (bindip cfg) (upnp cfg),
         SSLMod_ctor ?addr (ssl cfg), fprintf Stderr (ReadyToShare (length files)),
         fprintf Stderr (BoundTo (bindip cfg) ?p)]
      @ ann @ init_signal_handlers e sigs @ [signal_ignore SIGPIPE]
      @ (if \<not> signal_ok e then [fprintf Stderr SigpipeWarning] else [])"
  have "event_base_dispatch \<notin> set ?pre"
    using ann
    by (auto simp: register_routes_def split: option.splits
             dest: init_signal_handlers_actions announce_actions)
  moreover have "bootstrap e cfg files = (?pre @ event_base_dispatch # destroy_all e, Exit 0)"
    using ok ann by (simp add: bootstrap_def Let_def)
  ultimately show ?thesis by blast
qed

lemma main_dispatch:
  assumes "event_base_dispatch \<in> set (fst (main e argv))"
  shows "\<exists>pre. event_base_dispatch \<notin> set pre
           \<and> main e argv = (pre @ event_base_dispatch # destroy_all e, Exit 0)"
proof (cases "parse_options default_config (getopt_init argv)")
  case (Parsed cfg operands)
  show ?thesis
  proof (cases "operands = []")
    case True
    with Parsed assms show ?thesis by (simp add: main_def)
  next
    case False
    with Parsed assms
    have "event_base_dispatch \<in> set (fst (bootstrap e cfg (map strip_dot_slash operands)))"
      by (simp add: main_Parsed)
    from bootstrap_dispatch [OF this] obtain pre where pre: "event_base_dispatch \<notin> set pre"
      "bootstrap e cfg (map strip_dot_slash operands)
         = (pre @ event_base_dispatch # destroy_all e, Exit 0)"
      by blast
    with Parsed False have "main e argv = ((setlocale # pre) @ event_base_dispatch # destroy_all e, Exit 0)"
      by (simp add: main_def)
    moreover from pre(1) have "event_base_dispatch \<notin> set (setlocale # pre)" by simp
    ultimately show ?thesis by blast
  qed
next
  case (Return strm m code)
  with assms show ?thesis by (simp add: main_def)
next
  case NullOptarg
  with assms show ?thesis by (simp add: main_def)
qed

lemma main_env_ok_file:
  "fst (main env_ok [''pshs'', ''file'']) =
     [setlocale, srandom, event_base_new, evhttp_new,
      evhttp_set_allowed_methods {EVHTTP_REQ_GET, EVHTTP_REQ_HEAD},
      evhttp_set_gencb handle_file, evhttp_set_cb ''/'' handle_index,
      evhttp_bind_socket (Some ''0.0.0.0'') 1024,
      init_charset (Some ''UTF-8''), ContentType_ctor,
      ExternalIP_ctor 1024 (Some ''0.0.0.0'') True, SSLMod_ctor None False,
      fprintf Stderr (ReadyToShare 1),
      fprintf Stderr (BoundTo (Some ''0.0.0.0'') 1024), evsignal_new SIGINT,
      event_add (Some SIGINT), evsignal_new SIGTERM, event_add (Some SIGTERM),
      evsignal_new SIGHUP, event_add (Some SIGHUP), evsignal_new SIGUSR1,
      event_add (Some SIGUSR1), evsignal_new SIGUSR2, event_add (Some SIGUSR2),
      signal_ignore SIGPIPE, event_base_dispatch, event_free SIGUSR2,
      event_free SIGUSR1, event_free SIGHUP, event_free SIGTERM,
      event_free SIGINT, SSLMod_dtor, ExternalIP_dtor, ContentType_dtor,
      evhttp_free, event_base_free]"
  by (simp add: main_def getopt_defs bootstrap_def Let_def env_ok_def default_config_def
                announce_def register_routes_def choose_port_def random_port_def sigs_def
                destroy_all_def destroy_sigevents_def)

text \<open>
  C7, as the claim states it, fails: in a run where every call succeeds the TLS module
  is destroyed before the listener is freed, not after it.
\<close>

theorem release_order_counterexample:
  "precedes SSLMod_dtor evhttp_free (fst (main env_ok [''pshs'', ''file'']))
   \<and> \<not> precedes evhttp_free SSLMod_dtor (fst (main env_ok [''pshs'', ''file'']))"
  by (simp add: main_env_ok_file precedes_def)

text \<open>
  C7, amended. After \<^verbatim>\<open>event_base_dispatch\<close> returns, \<^verbatim>\<open>main\<close> returns 0 and the objects are
  destroyed in the reverse order of their declarations: the signal watchers that were
  installed, from the last signal to the first, then the TLS module, the external
  address, the content classifier, then the listener, and the event loop last.
\<close>

theorem release_order:
  assumes "event_base_dispatch \<in> set (fst (main e argv))"
  shows "dropWhile (\<lambda>a. a \<noteq> event_base_dispatch) (fst (main e argv))
           = event_base_dispatch
             # map event_free (filter (evsignal_new_ok e) [SIGUSR2, SIGUSR1, SIGHUP, SIGTERM, SIGINT])
             @ [SSLMod_dtor, ExternalIP_dtor, ContentType_dtor, evhttp_free, event_base_free]
         \<and> snd (main e argv) = Exit 0"
proof -
  from main_dispatch [OF assms] obtain pre where pre: "event_base_dispatch \<notin> set pre"
    "main e argv = (pre @ event_base_dispatch # destroy_all e, Exit 0)"
    by blast
  then show ?thesis
    by (simp add: dropWhile_until destroy_all_def destroy_sigevents_def sigs_def)
qed

theorem release_order_witness:
  "event_base_dispatch \<in> set (fst (main env_ok [''pshs'', ''file'']))
   \<and> dropWhile (\<lambda>a. a \<noteq> event_base_dispatch) (fst (main env_ok [''pshs'', ''file'']))
       = [event_base_dispatch, event_free SIGUSR2, event_free SIGUSR1, event_free SIGHUP,
          event_free SIGTERM, event_free SIGINT, SSLMod_dtor, ExternalIP_dtor, ContentType_dtor,
          evhttp_free, event_base_free]
   \<and> snd (main env_ok [''pshs'', ''file'']) = Exit 0"
proof -
  have d: "event_base_dispatch \<in> set (fst (main env_ok [''pshs'', ''file'']))"
    by (simp add: main_def getopt_defs bootstrap_def Let_def env_ok_def announce_def)
  from release_order [OF d] d show ?thesis by (simp add: env_ok_def)
qed

subsection \<open>Routes\<close>

lemma foldl_configure_inert:
  "(\<And>a h. a \<in> set xs \<Longrightarrow> configure h a = h) \<Longrightarrow> foldl configure h xs = h"
  by (induction xs arbitrary: h) simp_all

lemma configure_register_routes:
  "foldl configure evhttp_init (register_routes pfx)
     = \<lparr>allowed_methods = {EVHTTP_REQ_GET, EVHTTP_REQ_HEAD}, gencb = Some handle_file,
        callbacks = [(case pfx of None \<Rightarrow> ''/'' | Some p \<Rightarrow> ''/'' @ p @ ''/'', handle_index)]\<rparr>"
  by (simp add: register_routes_def evhttp_init_def index_uri_def split: option.splits)

lemma bootstrap_routes:
  assumes "event_base_new_ok e" and "evhttp_new_ok e"
  shows "\<exists>rest. fst (bootstrap e cfg files)
                  = [srandom, event_base_new, evhttp_new] @ register_routes (prefix cfg) @ rest
               \<and> (\<forall>a h. a \<in> set rest \<longrightarrow> configure h a = h)"
proof -
  let ?p = "choose_port (port cfg) (random_value e)"
  let ?addr = "external_ip e ?p (bindip cfg) (upnp cfg)"
  show ?thesis
  proof (cases "evhttp_bind_socket_ok e (bindip cfg) ?p")
    case False
    with assms show ?thesis by (simp add: bootstrap_def Let_def)
  next
    case True
    show ?thesis
    proof (cases "announce e cfg ?addr ?p files")
      case None
      with assms True show ?thesis by (simp add: bootstrap_def Let_def)
    next
      case (Some ann)
      let ?rest = "[evhttp_bind_socket (bindip cfg) ?p,
         init_charset (if codeset e = Some [] then None else codeset e),
         ContentType_ctor, ExternalIP_ctor ?p (bindip cfg) (upnp cfg),
         SSLMod_ctor ?addr (ssl cfg), fprintf Stderr (ReadyToShare (length files)),
         fprintf Stderr (BoundTo (bindip cfg) ?p)]
        @ ann @ init_signal_handlers e sigs @ [signal_ignore SIGPIPE]
        @ (if \<not> signal_ok e then [fprintf Stderr SigpipeWarning] else [])
        @ [event_base_dispatch] @ destroy_all e"
      have "fst (bootstrap e cfg files)
              = [srandom, event_base_new, evhttp_new] @ register_routes (prefix cfg) @ ?rest"
        using assms True Some by (simp add: bootstrap_def Let_def)
      moreover have "configure h a = h" if "a \<in> set ?rest" for a h
        using that Some
        by (auto simp: destroy_all_def split: if_splits
                 dest: init_signal_handlers_actions announce_actions destroy_sigevents_actions)
      ultimately show ?thesis by blast
    qed
  qed
qed

text \<open>
  C8. In a run with operands in which the event loop and the listener are created,
  \<^verbatim>\<open>main\<close> allows the methods GET and HEAD only, registers \<open>handle_file\<close> as the generic
  callback and \<open>handle_index\<close> for the one path \<open>/\<close> without a prefix, \<open>/P/\<close> with the
  prefix \<open>P\<close>. The listener so configured answers a GET or HEAD request for that path
  with \<open>handle_index\<close>, for any other path with \<open>handle_file\<close>, and refuses every other
  method.
\<close>

theorem routes_registered:
  assumes "parse_options default_config (getopt_init argv) = Parsed cfg operands"
    and "operands \<noteq> []"
    and "event_base_new_ok e" and "evhttp_new_ok e"
    and "index = (case prefix cfg of None \<Rightarrow> ''/'' | Some p \<Rightarrow> ''/'' @ p @ ''/'')"
  shows "evhttp_set_cb index handle_index \<in> set (fst (main e argv))
         \<and> evhttp_set_gencb handle_file \<in> set (fst (main e argv))
         \<and> evhttp_set_allowed_methods {EVHTTP_REQ_GET, EVHTTP_REQ_HEAD} \<in> set (fst (main e argv))
         \<and> evhttp_handle_request (foldl configure evhttp_init (fst (main e argv))) m path
             = (if m = EVHTTP_REQ_GET \<or> m = EVHTTP_REQ_HEAD
                then Callback (if path = index then handle_index else handle_file)
                else NotAllowed)"
proof -
  from bootstrap_routes [OF assms(3,4)] obtain rest
    where tr: "fst (bootstrap e cfg (map strip_dot_slash operands))
                 = [srandom, event_base_new, evhttp_new] @ register_routes (prefix cfg) @ rest"
      and inert: "\<And>a h. a \<in> set rest \<Longrightarrow> configure h a = h"
    by blast
  have m: "fst (main e argv)
             = [setlocale, srandom, event_base_new, evhttp_new] @ register_routes (prefix cfg) @ rest"
    using assms(1,2) tr by (simp add: main_Parsed)
  have "foldl configure evhttp_init (fst (main e argv))
          = foldl configure (foldl configure evhttp_init (register_routes (prefix cfg))) rest"
    by (simp add: m)
  also have "\<dots> = foldl configure evhttp_init (register_routes (prefix cfg))"
    using inert by (rule foldl_configure_inert)
  finally have h: "foldl configure evhttp_init (fst (main e argv))
      = \<lparr>allowed_methods = {EVHTTP_REQ_GET, EVHTTP_REQ_HEAD}, gencb = Some handle_file,
         callbacks = [(index, handle_index)]\<rparr>"
    by (simp add: configure_register_routes assms(5))
  have "evhttp_set_cb index handle_index \<in> set (register_routes (prefix cfg))"
    by (simp add: register_routes_def index_uri_def assms(5) split: option.splits)
  then have reg: "evhttp_set_cb index handle_index \<in> set (fst (main e argv))"
    "evhttp_set_gencb handle_file \<in> set (fst (main e argv))"
    "evhttp_set_allowed_methods {EVHTTP_REQ_GET, EVHTTP_REQ_HEAD} \<in> set (fst (main e argv))"
    by (simp_all add: m register_routes_def)
  have "evhttp_handle_request (foldl configure evhttp_init (fst (main e argv))) m path
          = (if m = EVHTTP_REQ_GET \<or> m = EVHTTP_REQ_HEAD
             then Callback (if path = index then handle_index else handle_file)
             else NotAllowed)"
    unfolding h by (simp add: evhttp_handle_request_def)
  with reg show ?thesis by blast
qed

theorem routes_registered_witness:
  "parse_options default_config (getopt_init [''pshs'', ''-P'', ''files'', ''a.txt''])
     = Parsed (default_config\<lparr>prefix := Some ''files''\<rparr>) [''a.txt'']
   \<and> evhttp_set_cb ''/files/'' handle_index
       \<in> set (fst (main env_ok [''pshs'', ''-P'', ''files'', ''a.txt'']))
   \<and> evhttp_handle_request
        (foldl configure evhttp_init (fst (main env_ok [''pshs'', ''-P'', ''files'', ''a.txt''])))
        EVHTTP_REQ_GET ''/'' = Callback handle_file
   \<and> evhttp_handle_request
        (foldl configure evhttp_init (fst (main env_ok [''pshs'', ''-P'', ''files'', ''a.txt''])))
        EVHTTP_REQ_HEAD ''/files/'' = Callback handle_index
   \<and> evhttp_handle_request
        (foldl configure evhttp_init (fst (main env_ok [''pshs'', ''-P'', ''files'', ''a.txt''])))
        EVHTTP_REQ_POST ''/files/'' = NotAllowed"
proof -
  have p: "parse_options default_config (getopt_init [''pshs'', ''-P'', ''files'', ''a.txt''])
     = Parsed (default_config\<lparr>prefix := Some ''files''\<rparr>) [''a.txt'']"
    by (simp add: getopt_defs)
  have ok: "event_base_new_ok env_ok" "evhttp_new_ok env_ok" by (simp_all add: env_ok_def)
  have i: "''/files/'' = (case prefix (default_config\<lparr>prefix := Some ''files''\<rparr>) of
                            None \<Rightarrow> ''/'' | Some p \<Rightarrow> ''/'' @ p @ ''/'')"
    by simp
  have ne: "[''a.txt''] \<noteq> []" by simp
  from routes_registered [OF p ne ok i, of EVHTTP_REQ_GET "''/''"]
       routes_registered [OF p ne ok i, of EVHTTP_REQ_HEAD "''/files/''"]
       routes_registered [OF p ne ok i, of EVHTTP_REQ_POST "''/files/''"]
       p
  show ?thesis by simp
qed

subsection \<open>The announced address\<close>

lemma reachable_lines_simps:
  "reachable_lines [] = []"
  "reachable_lines (a # tr) = (case reachable_line a of None \<Rightarrow> reachable_lines tr | Some u \<Rightarrow> u # reachable_lines tr)"
  "reachable_lines (tr @ tr') = reachable_lines tr @ reachable_lines tr'"
  by (simp_all add: reachable_lines_def List.map_filter_def split: option.splits)

lemma qrcodes_simps:
  "qrcodes [] = []"
  "qrcodes (a # tr) = (case qrcode a of None \<Rightarrow> qrcodes tr | Some u \<Rightarrow> u # qrcodes tr)"
  "qrcodes (tr @ tr') = qrcodes tr @ qrcodes tr'"
  by (simp_all add: qrcodes_def List.map_filter_def split: option.splits)

lemma init_signal_handlers_silent:
  "reachable_lines (init_signal_handlers e ss) = [] \<and> qrcodes (init_signal_handlers e ss) = []"
  by (induction ss) (simp_all add: reachable_lines_simps qrcodes_simps)

lemma destroy_all_silent: "reachable_lines (destroy_all e) = [] \<and> qrcodes (destroy_all e) = []"
proof -
  have "reachable_lines (map event_free ss) = [] \<and> qrcodes (map event_free ss) = []" for ss
    by (induction ss) (simp_all add: reachable_lines_simps qrcodes_simps)
  then show ?thesis
    by (simp add: destroy_all_def destroy_sigevents_def reachable_lines_simps qrcodes_simps)
qed

lemma register_routes_silent:
  "reachable_lines (register_routes pfx) = [] \<and> qrcodes (register_routes pfx) = []"
  by (simp add: register_routes_def reachable_lines_simps qrcodes_simps split: option.splits)

lemma server_uri_eq:
  "server_uri e cfg addr p files =
     (case files of
        [f] \<Rightarrow> (case evhttp_encode_uri e f of
                  None \<Rightarrow> None
                | Some enc \<Rightarrow>
                    Some ((if ssl cfg then ''https'' else ''http'') @ ''://'' @ addr @ '':'' @ dec p @ ''/''
                          @ (case prefix cfg of None \<Rightarrow> [] | Some x \<Rightarrow> x @ ''/'') @ enc))
      | _ \<Rightarrow> Some ((if ssl cfg then ''https'' else ''http'') @ ''://'' @ addr @ '':'' @ dec p @ ''/''
                   @ (case prefix cfg of None \<Rightarrow> [] | Some x \<Rightarrow> x @ ''/'')))"
  by (cases files rule: remdups_adj.cases) (simp_all add: server_uri_def split: option.splits)

lemma bootstrap_lines:
  assumes "p = choose_port (port cfg) (random_value e)"
  shows "reachable_lines (fst (bootstrap e cfg files))
           = (if event_base_new_ok e \<and> evhttp_new_ok e \<and> evhttp_bind_socket_ok e (bindip cfg) p
              then (case external_ip e p (bindip cfg) (upnp cfg) of
                      None \<Rightarrow> []
                    | Some addr \<Rightarrow>
                        (case server_uri e cfg addr p files of None \<Rightarrow> [] | Some u \<Rightarrow> [u]))
              else [])
         \<and> qrcodes (fst (bootstrap e cfg files)) = reachable_lines (fst (bootstrap e cfg files))"
  unfolding assms
  by (auto simp: bootstrap_def Let_def reachable_lines_simps qrcodes_simps announce_def
                 init_signal_handlers_silent destroy_all_silent register_routes_silent
           split: option.splits)

text \<open>
  C9. In a run with operands, the address is announced, once on stderr and once as a QR
  code with the same text, only when the listener is bound and \<^verbatim>\<open>ExternalIP\<close> holds an
  address; nothing is announced otherwise. The text is the scheme, \<open>https\<close> when \<open>-s\<close> was
  given and \<open>http\<close> otherwise, then \<open>://\<close>, the address, \<open>:\<close>, the port in decimal and \<open>/\<close>; then
  the prefix and \<open>/\<close> when a prefix is set; then the encoded name of the file when
  there is exactly one operand. (When \<^verbatim>\<open>evhttp_encode_uri\<close> returns a null pointer the
  process ends by the exception, with nothing announced.)
\<close>

theorem server_uri_announced:
  assumes "parse_options default_config (getopt_init argv) = Parsed cfg operands"
    and "operands \<noteq> []"
    and "p = choose_port (port cfg) (random_value e)"
    and "scheme = (if ssl cfg then ''https'' else ''http'')"
  shows "reachable_lines (fst (main e argv))
           = (if event_base_new_ok e \<and> evhttp_new_ok e \<and> evhttp_bind_socket_ok e (bindip cfg) p
              then (case external_ip e p (bindip cfg) (upnp cfg) of
                      None \<Rightarrow> []
                    | Some addr \<Rightarrow>
                        (case map strip_dot_slash operands of
                           [f] \<Rightarrow>
                             (case evhttp_encode_uri e f of
                                None \<Rightarrow> []
                              | Some enc \<Rightarrow>
                                  [scheme @ ''://'' @ addr @ '':'' @ dec p @ ''/''
                                   @ (case prefix cfg of None \<Rightarrow> [] | Some x \<Rightarrow> x @ ''/'') @ enc])
                         | _ \<Rightarrow>
                             [scheme @ ''://'' @ addr @ '':'' @ dec p @ ''/''
                              @ (case prefix cfg of None \<Rightarrow> [] | Some x \<Rightarrow> x @ ''/'')]))
              else [])
         \<and> qrcodes (fst (main e argv)) = reachable_lines (fst (main e argv))"
proof -
  have "fst (main e argv) = setlocale # fst (bootstrap e cfg (map strip_dot_slash operands))"
    using assms(1,2) by (rule main_Parsed)
  then have "reachable_lines (fst (main e argv))
               = reachable_lines (fst (bootstrap e cfg (map strip_dot_slash operands)))"
    and "qrcodes (fst (main e argv)) = qrcodes (fst (bootstrap e cfg (map strip_dot_slash operands)))"
    by (simp_all add: reachable_lines_simps qrcodes_simps)
  with bootstrap_lines [OF assms(3), of "map strip_dot_slash operands"] show ?thesis
    unfolding assms(4)
    by (simp add: server_uri_eq split: option.splits list.splits)
qed

theorem server_uri_announced_witness:
  "parse_options default_config (getopt_init [''pshs'', ''-s'', ''-P'', ''pre'', ''-p'', ''8080'', ''./a.txt''])
     = Parsed (default_config\<lparr>ssl := True, prefix := Some ''pre'', port := 8080\<rparr>) [''./a.txt'']
   \<and> reachable_lines (fst (main (env_ok\<lparr>external_ip := (\<lambda>p b u. Some ''203.0.113.7'')\<rparr>)
                               [''pshs'', ''-s'', ''-P'', ''pre'', ''-p'', ''8080'', ''./a.txt'']))
       = [''https://203.0.113.7:8080/pre/a.txt'']
   \<and> qrcodes (fst (main (env_ok\<lparr>external_ip := (\<lambda>p b u. Some ''203.0.113.7'')\<rparr>)
                       [''pshs'', ''-s'', ''-P'', ''pre'', ''-p'', ''8080'', ''./a.txt'']))
       = [''https://203.0.113.7:8080/pre/a.txt'']"
proof -
  let ?e = "env_ok\<lparr>external_ip := (\<lambda>p b u. Some ''203.0.113.7'')\<rparr>"
  let ?argv = "[''pshs'', ''-s'', ''-P'', ''pre'', ''-p'', ''8080'', ''./a.txt'']"
  let ?cfg = "default_config\<lparr>ssl := True, prefix := Some ''pre'', port := 8080\<rparr>"
  have p: "parse_options default_config (getopt_init ?argv) = Parsed ?cfg [''./a.txt'']"
    by (simp add: getopt_defs strtol_defs)
  have ne: "[''./a.txt''] \<noteq> []" by simp
  have port: "8080 = choose_port (port ?cfg) (random_value ?e)"
    by (simp add: choose_port_def)
  have scheme: "''https'' = (if ssl ?cfg then ''https'' else ''http'')" by simp
  have d: "dec 8080 = ''8080''"
    by (simp add: dec.simps digit_char_def char_of_def bit_Suc_0_iff)
  from server_uri_announced [OF p ne port scheme] p show ?thesis
    by (simp add: env_ok_def d default_config_def)
qed

end
